theory Spec2Isabelle
  imports Main
begin

section \<open>The handler registry of \<^verbatim>\<open>githubapp/webhook_handler.py\<close>\<close>

subsection \<open>Event classes\<close>

text \<open>
  An event type is a Python class. The registry only ever asks a class for its direct
  subclasses (\<^verbatim>\<open>event.__subclasses__()\<close>) and uses the class as a dictionary key, so
  a class is its name together with the list of its direct subclasses, in declaration
  order. \<^verbatim>\<open>events/issue_comment.py\<close> declares the hierarchy below.
\<close>

datatype event_class = EventClass (class_name: string) (subclasses: "event_class list")

definition IssueCommentCreatedEvent :: event_class where
  "IssueCommentCreatedEvent = EventClass ''IssueCommentCreatedEvent'' []"

definition IssueCommentDeletedEvent :: event_class where
  "IssueCommentDeletedEvent = EventClass ''IssueCommentDeletedEvent'' []"

definition IssueCommentEditedEvent :: event_class where
  "IssueCommentEditedEvent = EventClass ''IssueCommentEditedEvent'' []"

definition IssueCommentEvent :: event_class where
  "IssueCommentEvent = EventClass ''IssueCommentEvent''
     [IssueCommentCreatedEvent, IssueCommentDeletedEvent, IssueCommentEditedEvent]"

text \<open>A class and all its descendants, in pre-order; and the descendants without subclasses.\<close>

fun classes :: "event_class \<Rightarrow> event_class list" where
  "classes (EventClass n subs) = EventClass n subs # concat (map classes subs)"

fun leaves :: "event_class \<Rightarrow> event_class list" where
  "leaves (EventClass n subs) =
     (if subs = [] then [EventClass n subs] else concat (map leaves subs))"

subsection \<open>Exceptions\<close>

text \<open>
  The exceptions the module raises itself or lets through. \<open>Exception\<close> stands for any
  other class deriving from Python's \<^verbatim>\<open>Exception\<close> (class name and text),
  \<open>BaseException\<close> for a class deriving from \<^verbatim>\<open>BaseException\<close> only
  (\<^verbatim>\<open>SystemExit\<close>, \<^verbatim>\<open>KeyboardInterrupt\<close>), which \<^verbatim>\<open>except Exception\<close> does not catch.
  \<open>SignatureError\<close> carries its \<^verbatim>\<open>message\<close> attribute, \<open>AttributeError\<close> and
  \<open>KeyError\<close> the name that was not found.
\<close>

datatype exn =
    SignatureError string
  | KeyError string
  | AttributeError string
  | TypeError
  | ValueError
  | Exception string string
  | BaseException string

fun is_Exception :: "exn \<Rightarrow> bool" where
  "is_Exception (BaseException c) = False"
| "is_Exception e = True"

fun exn_class :: "exn \<Rightarrow> string" where
  "exn_class (SignatureError m) = ''SignatureError''"
| "exn_class (KeyError k) = ''KeyError''"
| "exn_class (AttributeError a) = ''AttributeError''"
| "exn_class TypeError = ''TypeError''"
| "exn_class ValueError = ''ValueError''"
| "exn_class (Exception c t) = c"
| "exn_class (BaseException c) = c"

subsection \<open>Handlers and their signatures\<close>

text \<open>
  What \<^verbatim>\<open>inspect.signature(method).parameters\<close> reports of a callable: the ordered
  parameters, each with its name, its kind and whether it has a default.

  A handler is a callable object. The registry stores references to such objects, so a
  handler is what the module reads of the object: its identity \<open>ident\<close>; its
  \<^verbatim>\<open>__qualname__\<close>, which functions and methods have and \<^verbatim>\<open>functools.partial\<close>
  objects and callable instances have not (reading it then raises
  \<^verbatim>\<open>AttributeError\<close>); and the outcome of \<^verbatim>\<open>inspect.signature(method)\<close>, which is
  the parameters or, for a callable without an introspectable signature, the exception
  raised. What calling the object does is given by the dispatcher's collaborators, since
  the code of a handler can reach the registry itself.
\<close>

datatype param_kind =
  POSITIONAL_ONLY | POSITIONAL_OR_KEYWORD | VAR_POSITIONAL | KEYWORD_ONLY | VAR_KEYWORD

record parameter =
  p_name :: string
  p_kind :: param_kind
  p_has_default :: bool

record handler =
  ident :: nat
  qualname :: "string option"
  signature :: "exn + parameter list"

text \<open>\<^verbatim>\<open>sep.join(xs)\<close>\<close>

fun join :: "string \<Rightarrow> string list \<Rightarrow> string" where
  "join sep [] = []"
| "join sep [x] = x"
| "join sep (x # y # ys) = x @ sep @ join sep (y # ys)"

text \<open>
  \<^verbatim>\<open>SignatureError(method, signature)\<close>: the constructor evaluates
  \<^verbatim>\<open>method.__qualname__\<close> for the message. \<open>Inr\<close> is the exception object built,
  \<open>Inl\<close> the exception raised while building it.
\<close>

definition SignatureError_init :: "handler \<Rightarrow> string \<Rightarrow> exn + exn" where
  "SignatureError_init method sig =
     (case qualname method of
        None \<Rightarrow> Inl (AttributeError ''__qualname__'')
      | Some name \<Rightarrow>
          Inr (SignatureError (''Method '' @ name @ ''('' @ sig @ '') signature error. ''
                 @ ''The method must accept only one argument of the Event type'')))"

text \<open>
  \<^verbatim>\<open>_validate_signature(method)\<close>: \<open>None\<close> when it returns, \<open>Some e\<close> when it raises
  \<open>e\<close>, which is the exception of \<^verbatim>\<open>inspect.signature\<close>, the exception of the
  \<^verbatim>\<open>SignatureError\<close> constructor, or the \<^verbatim>\<open>SignatureError\<close> itself.
\<close>

definition validate_signature :: "handler \<Rightarrow> exn option" where
  "validate_signature method =
     (case signature method of
        Inl e \<Rightarrow> Some e
      | Inr parameters \<Rightarrow>
          (if length parameters \<noteq> 1
           then (case SignatureError_init method (join '', '' (map p_name parameters)) of
                   Inl e \<Rightarrow> Some e
                 | Inr signature_error \<Rightarrow> Some signature_error)
           else None))"

subsection \<open>The registry: a \<^verbatim>\<open>defaultdict(list)\<close>\<close>

type_synonym registry = "event_class \<rightharpoonup> handler list"

text \<open>\<^verbatim>\<open>handlers.get(k, [])\<close> reads without inserting a key.\<close>

definition dd_get :: "registry \<Rightarrow> event_class \<Rightarrow> handler list" where
  "dd_get hs k = (case hs k of None \<Rightarrow> [] | Some ms \<Rightarrow> ms)"

text \<open>\<^verbatim>\<open>handlers[k]\<close> inserts the empty list under a missing key and returns the entry.\<close>

definition dd_getitem ::
  "registry \<Rightarrow> event_class \<Rightarrow> handler list \<times> registry" where
  "dd_getitem hs k = (case hs k of None \<Rightarrow> ([], hs(k \<mapsto> [])) | Some ms \<Rightarrow> (ms, hs))"

text \<open>\<^verbatim>\<open>handlers[k].append(method)\<close>\<close>

definition dd_append ::
  "registry \<Rightarrow> event_class \<Rightarrow> handler \<Rightarrow> registry" where
  "dd_append hs k method = (case dd_getitem hs k of (ms, hs') \<Rightarrow> hs'(k \<mapsto> ms @ [method]))"

subsection \<open>\<^verbatim>\<open>add_handler\<close> and \<^verbatim>\<open>webhook_handler\<close>\<close>

text \<open>
  \<^verbatim>\<open>add_handler(event, method)\<close> mutates the global registry and may raise; the model
  returns the exception, if any, with the registry as the call leaves it.
  \<open>add_handler_each\<close> is the loop \<^verbatim>\<open>for sub_event in subclasses: add_handler(sub_event, method)\<close>,
  which an exception leaves at once.
\<close>

fun add_handler ::
    "event_class \<Rightarrow> handler \<Rightarrow> registry \<Rightarrow> exn option \<times> registry"
  and add_handler_each ::
    "event_class list \<Rightarrow> handler \<Rightarrow> registry \<Rightarrow> exn option \<times> registry"
where
  "add_handler (EventClass n subs) method hs =
     (if subs \<noteq> [] then add_handler_each subs method hs
      else (case validate_signature method of
              Some e \<Rightarrow> (Some e, hs)
            | None \<Rightarrow> (None, dd_append hs (EventClass n subs) method)))"
| "add_handler_each [] method hs = (None, hs)"
| "add_handler_each (sub_event # rest) method hs =
     (case add_handler sub_event method hs of
        (Some e, hs') \<Rightarrow> (Some e, hs')
      | (None, hs') \<Rightarrow> add_handler_each rest method hs')"

text \<open>
  \<^verbatim>\<open>webhook_handler(event)(method)\<close>: the decorator registers the method and returns it.
\<close>

definition webhook_handler ::
  "event_class \<Rightarrow> handler \<Rightarrow> registry
     \<Rightarrow> (exn + handler) \<times> registry" where
  "webhook_handler event method hs =
     (case add_handler event method hs of
        (Some e, hs') \<Rightarrow> (Inl e, hs')
      | (None, hs') \<Rightarrow> (Inr method, hs'))"

text \<open>
  A sequence of registrations, each one a call of \<^verbatim>\<open>add_handler\<close> whose exception, if
  any, the caller absorbs before making the next call.
\<close>

fun add_handlers ::
  "(event_class \<times> handler) list \<Rightarrow> registry \<Rightarrow> registry" where
  "add_handlers [] hs = hs"
| "add_handlers ((event, method) # calls) hs =
     add_handlers calls (snd (add_handler event method hs))"

text \<open>
  The registrations that apply to a leaf type, in the spec's words: the chronological
  subsequence of the successfully registered handlers whose event type argument is the
  leaf or one of its ancestors.
\<close>

definition registered_for ::
  "(event_class \<times> handler) list \<Rightarrow> event_class \<Rightarrow> handler list" where
  "registered_for calls L =
     map snd (filter (\<lambda>(event, method).
       validate_signature method = None \<and> L \<in> set (classes event)) calls)"

text \<open>
  Python's binding of a call with one positional argument: the argument goes to the
  first parameter if that one takes positional arguments, and every other parameter must
  be optional.
\<close>

fun accepts_one_positional :: "parameter list \<Rightarrow> bool" where
  "accepts_one_positional [] = False"
| "accepts_one_positional (p # ps) =
     (p_kind p \<in> {POSITIONAL_ONLY, POSITIONAL_OR_KEYWORD, VAR_POSITIONAL} \<and>
      (\<forall>q \<in> set ps. p_has_default q \<or> p_kind q \<in> {VAR_POSITIONAL, VAR_KEYWORD}))"

section \<open>The dispatcher: \<^verbatim>\<open>handle\<close>\<close>

subsection \<open>Request data\<close>

text \<open>
  Headers and body are dictionaries with string keys (\<^verbatim>\<open>dict[str, Any]\<close>); their
  values are the values of parsed JSON, without floating-point numbers.
\<close>

datatype json =
  JNull | JBool bool | JInt int | JStr string | JList "json list" | JObj "(string \<times> json) list"

type_synonym pydict = "(string \<times> json) list"

text \<open>\<^verbatim>\<open>v[k]\<close> for a string key: only a dictionary can be subscripted by a string.\<close>

fun getitem :: "json \<Rightarrow> string \<Rightarrow> exn + json" where
  "getitem (JObj kvs) k = (case map_of kvs k of None \<Rightarrow> Inl (KeyError k) | Some v \<Rightarrow> Inr v)"
| "getitem v k = Inl TypeError"

text \<open>
  \<^verbatim>\<open>int(v)\<close>; \<open>parse\<close> is Python's reading of an integer literal from a string.
\<close>

fun py_int :: "(string \<Rightarrow> int option) \<Rightarrow> json \<Rightarrow> exn + int" where
  "py_int parse (JInt n) = Inr n"
| "py_int parse (JBool b) = Inr (if b then 1 else 0)"
| "py_int parse (JStr s) = (case parse s of None \<Rightarrow> Inl ValueError | Some n \<Rightarrow> Inr n)"
| "py_int parse v = Inl TypeError"

text \<open>Truthiness of an optional string (\<^verbatim>\<open>os.environ.get\<close>, \<^verbatim>\<open>os.getenv\<close>).\<close>

definition truthy :: "string option \<Rightarrow> bool" where
  "truthy v = (case v of None \<Rightarrow> False | Some s \<Rightarrow> s \<noteq> [])"

subsection \<open>Library objects\<close>

datatype auth =
    AppUserAuth "string option" "string option" "string option"
  | AppAuth int string
  | Token string

datatype github = Github auth

text \<open>
  The \<^verbatim>\<open>Requester\<close> that \<^verbatim>\<open>handle\<close> builds; its other arguments are constants of
  the client library.
\<close>

record requester =
  r_auth :: auth
  r_verify :: bool
  r_pool_size :: "nat option"

subsection \<open>Collaborators outside the module\<close>

text \<open>
  \<^verbatim>\<open>handle\<close> calls the registered handlers, the \<^verbatim>\<open>Event\<close> base class
  (\<^verbatim>\<open>githubapp/events/event.py\<close>), the client library, the process environment and the
  file system. They are parameters of the model. \<open>'i\<close> is the type of event instances,
  \<open>'w\<close> the state of the world outside the module; whatever can raise returns an
  exception, whatever can have an effect returns what it changed.
  \<^item> \<open>call\<close>: \<^verbatim>\<open>handler(event)\<close>. A handler is arbitrary code: besides the world it
    can change the module's global \<^verbatim>\<open>handlers\<close> (through \<^verbatim>\<open>add_handler\<close> or directly)
    and the list object the running loop iterates. That list is the object stored under
    the resolved key when the loop starts; it stays the registry's entry while a handler
    changes it in place, and stops being the entry once a handler rebinds or deletes the
    key. So a call takes and returns the contents of the iterated list, the contents of
    the registry, and the world.
  \<^item> \<open>get_event\<close>: \<^verbatim>\<open>Event.get_event(headers, body)\<close>
  \<^item> \<open>new_event\<close>: \<^verbatim>\<open>event_class(gh=gh, requester=requester, headers=headers, **body)\<close>
  \<^item> \<open>check_run\<close>: whether \<^verbatim>\<open>event.check_run\<close> is truthy
  \<^item> \<open>update_check_run\<close>: \<^verbatim>\<open>event.update_check_run(conclusion=..., text=...)\<close>
  \<^item> \<open>format_exc\<close>: \<^verbatim>\<open>traceback.format_exc()\<close> while the given exception is handled
  \<^item> \<open>int_of_str\<close>: the integer a string denotes for \<^verbatim>\<open>int\<close>, if any
  \<^item> \<open>environ\<close>: \<^verbatim>\<open>os.environ\<close>
  \<^item> \<open>read_private_key_file\<close>: reading and decoding \<^verbatim>\<open>private-key.pem\<close>
  \<^item> \<open>get_access_token\<close>:
    \<^verbatim>\<open>GithubIntegration(auth=app_auth).get_access_token(installation_id).token\<close>
\<close>

record ('i, 'w) env =
  call :: "handler \<Rightarrow> 'i \<Rightarrow> handler list \<times> registry \<times> 'w
             \<Rightarrow> exn option \<times> handler list \<times> registry \<times> 'w"
  get_event :: "pydict \<Rightarrow> pydict \<Rightarrow> exn + event_class"
  new_event :: "event_class \<Rightarrow> github \<Rightarrow> requester \<Rightarrow> pydict \<Rightarrow> pydict \<Rightarrow> 'w \<Rightarrow> (exn + 'i) \<times> 'w"
  check_run :: "'i \<Rightarrow> 'w \<Rightarrow> bool"
  update_check_run :: "'i \<Rightarrow> string \<Rightarrow> string \<Rightarrow> 'w \<Rightarrow> exn option \<times> 'w"
  format_exc :: "exn \<Rightarrow> string"
  int_of_str :: "string \<Rightarrow> int option"
  environ :: "'w \<Rightarrow> string \<Rightarrow> string option"
  read_private_key_file :: "'w \<Rightarrow> (exn + string) \<times> 'w"
  get_access_token :: "auth \<Rightarrow> int \<Rightarrow> 'w \<Rightarrow> (exn + string) \<times> 'w"

subsection \<open>State\<close>

text \<open>
  What a delivery does that can be observed from outside: every construction of an event
  instance with its arguments and its result, every handler invocation with its argument
  and its outcome, every check-run update with its arguments and its outcome.
\<close>

datatype 'i action =
    Construct event_class github requester pydict pydict "exn + 'i"
  | Invoke handler 'i "exn option"
  | UpdateCheckRun 'i string string "exn option"

text \<open>The module's global \<^verbatim>\<open>handlers\<close>, the world outside it, and the actions so far.\<close>

record ('i, 'w) state =
  handlers :: registry
  world :: 'w
  trace :: "'i action list"

text \<open>
  How a run of \<^verbatim>\<open>handle\<close> ends. A handler can lengthen the list the loop iterates, so
  the loop need not end: the model runs at most \<open>fuel\<close> iterations, and \<open>OutOfFuel\<close>
  says that a further iteration was due when they were used up.
\<close>

datatype outcome = Returns | Raises exn | OutOfFuel

subsection \<open>\<^verbatim>\<open>_get_auth\<close>\<close>

definition get_auth :: "('i, 'w) env \<Rightarrow> int \<Rightarrow> int \<Rightarrow> 'w \<Rightarrow> (exn + auth) \<times> 'w" where
  "get_auth E hook_installation_target_id installation_id w =
     (if truthy (environ E w ''CLIENT_ID'')
      then (Inr (AppUserAuth (environ E w ''CLIENT_ID'') (environ E w ''CLIENT_SECRET'')
                   (environ E w ''TOKEN'')), w)
      else
        (case (if \<not> truthy (environ E w ''PRIVATE_KEY'') then read_private_key_file E w
               else (Inr (the (environ E w ''PRIVATE_KEY'')), w)) of
           (Inl e, w1) \<Rightarrow> (Inl e, w1)
         | (Inr private_key, w1) \<Rightarrow>
             (case get_access_token E (AppAuth hook_installation_target_id private_key)
                     installation_id w1 of
                (Inl e, w2) \<Rightarrow> (Inl e, w2)
              | (Inr token, w2) \<Rightarrow> (Inr (Token token), w2))))"

subsection \<open>\<^verbatim>\<open>handle\<close>\<close>

text \<open>
  The body of the loop \<^verbatim>\<open>for handler in handlers.get(event_class, [])\<close>, for one
  handler: \<open>None\<close> when the body completes, \<open>Some e\<close> when it raises \<open>e\<close>, with the
  iterated list and the state as the body leaves them.
\<close>

definition handle_one ::
  "('i, 'w) env \<Rightarrow> event_class \<Rightarrow> github \<Rightarrow> requester \<Rightarrow> pydict \<Rightarrow> pydict
     \<Rightarrow> handler \<Rightarrow> handler list \<Rightarrow> ('i, 'w) state
     \<Rightarrow> exn option \<times> handler list \<times> ('i, 'w) state" where
  "handle_one E event_class gh rq headers body handler items s =
     (case new_event E event_class gh rq headers body (world s) of
        (Inl e, w1) \<Rightarrow>
          (Some e, items, s\<lparr>world := w1,
             trace := trace s @ [Construct event_class gh rq headers body (Inl e)]\<rparr>)
      | (Inr event, w1) \<Rightarrow>
          (case call E handler event (items, handlers s, w1) of
             (None, items', hs', w2) \<Rightarrow>
               (None, items', s\<lparr>handlers := hs', world := w2,
                  trace := trace s @ [Construct event_class gh rq headers body (Inr event),
                    Invoke handler event None]\<rparr>)
           | (Some e, items', hs', w2) \<Rightarrow>
               (if is_Exception e then
                  (if check_run E event w2 then
                     (case update_check_run E event ''failure'' (format_exc E e) w2 of
                        (Some e', w3) \<Rightarrow>
                          (Some e', items', s\<lparr>handlers := hs', world := w3,
                             trace := trace s @
                               [Construct event_class gh rq headers body (Inr event),
                                Invoke handler event (Some e),
                                UpdateCheckRun event ''failure'' (format_exc E e) (Some e')]\<rparr>)
                      | (None, w3) \<Rightarrow>
                          (Some e, items', s\<lparr>handlers := hs', world := w3,
                             trace := trace s @
                               [Construct event_class gh rq headers body (Inr event),
                                Invoke handler event (Some e),
                                UpdateCheckRun event ''failure'' (format_exc E e) None]\<rparr>))
                   else
                     (Some e, items', s\<lparr>handlers := hs', world := w2,
                        trace := trace s @
                          [Construct event_class gh rq headers body (Inr event),
                           Invoke handler event (Some e)]\<rparr>))
                else
                  (Some e, items', s\<lparr>handlers := hs', world := w2,
                     trace := trace s @
                       [Construct event_class gh rq headers body (Inr event),
                        Invoke handler event (Some e)]\<rparr>))))"

text \<open>
  The \<^verbatim>\<open>for\<close> loop. Python's list iterator keeps the list object and an index \<open>i\<close>:
  each step compares \<open>i\<close> with the current length of the list, takes the element at
  \<open>i\<close> and advances, so elements a handler appends are visited and elements it removes
  shift the rest. The first argument bounds the number of iterations run.
\<close>

fun handle_loop ::
  "nat \<Rightarrow> ('i, 'w) env \<Rightarrow> event_class \<Rightarrow> github \<Rightarrow> requester \<Rightarrow> pydict \<Rightarrow> pydict
     \<Rightarrow> nat \<Rightarrow> handler list \<Rightarrow> ('i, 'w) state \<Rightarrow> outcome \<times> handler list \<times> ('i, 'w) state" where
  "handle_loop 0 E event_class gh rq headers body i items s =
     (if i < length items then (OutOfFuel, items, s) else (Returns, items, s))"
| "handle_loop (Suc fuel) E event_class gh rq headers body i items s =
     (if i < length items then
        (case handle_one E event_class gh rq headers body (items ! i) items s of
           (Some e, items', s') \<Rightarrow> (Raises e, items', s')
         | (None, items', s') \<Rightarrow>
             handle_loop fuel E event_class gh rq headers body (Suc i) items' s')
      else (Returns, items, s))"

text \<open>
  The statements of \<^verbatim>\<open>handle\<close> before its loop: resolving the event class, reading
  the two identifiers, \<^verbatim>\<open>_get_auth\<close>, and building the \<^verbatim>\<open>Github\<close> client and the
  \<^verbatim>\<open>Requester\<close>. Only \<^verbatim>\<open>_get_auth\<close> touches the world.
\<close>

definition handle_setup ::
  "('i, 'w) env \<Rightarrow> pydict \<Rightarrow> pydict \<Rightarrow> 'w
     \<Rightarrow> (exn + event_class \<times> github \<times> requester) \<times> 'w" where
  "handle_setup E headers body w =
     (case get_event E headers body of
        Inl e \<Rightarrow> (Inl e, w)
      | Inr event_class \<Rightarrow>
     (case getitem (JObj headers) ''X-Github-Hook-Installation-Target-Id'' of
        Inl e \<Rightarrow> (Inl e, w)
      | Inr target \<Rightarrow>
     (case py_int (int_of_str E) target of
        Inl e \<Rightarrow> (Inl e, w)
      | Inr hook_installation_target_id \<Rightarrow>
     (case getitem (JObj body) ''installation'' of
        Inl e \<Rightarrow> (Inl e, w)
      | Inr installation \<Rightarrow>
     (case getitem installation ''id'' of
        Inl e \<Rightarrow> (Inl e, w)
      | Inr raw_id \<Rightarrow>
     (case py_int (int_of_str E) raw_id of
        Inl e \<Rightarrow> (Inl e, w)
      | Inr installation_id \<Rightarrow>
     (case get_auth E hook_installation_target_id installation_id w of
        (Inl e, w') \<Rightarrow> (Inl e, w')
      | (Inr auth, w') \<Rightarrow>
          (Inr (event_class, Github auth,
                \<lparr>r_auth = auth, r_verify = True, r_pool_size = None\<rparr>), w'))))))))"

text \<open>
  \<^verbatim>\<open>handle(headers, body)\<close>, run for at most \<open>fuel\<close> iterations of its loop. The loop
  iterates the list \<^verbatim>\<open>handlers.get(event_class, [])\<close> returns: the registry's own list
  for the key, or a new empty list when the key is missing (nothing is inserted).
\<close>

definition handle ::
  "nat \<Rightarrow> ('i, 'w) env \<Rightarrow> pydict \<Rightarrow> pydict \<Rightarrow> ('i, 'w) state \<Rightarrow> outcome \<times> ('i, 'w) state" where
  "handle fuel E headers body s =
     (case handle_setup E headers body (world s) of
        (Inl e, w) \<Rightarrow> (Raises e, s\<lparr>world := w\<rparr>)
      | (Inr (event_class, gh, rq), w) \<Rightarrow>
          (case handle_loop fuel E event_class gh rq headers body 0
                  (dd_get (handlers s) event_class) (s\<lparr>world := w\<rparr>) of
             (r, items, s') \<Rightarrow> (r, s')))"

subsection \<open>Reading a trace\<close>

text \<open>
  The constructions of a trace (arguments and result), its handler invocations (handler,
  argument, outcome) and its check-run updates (instance, conclusion, text, outcome), each
  in the order of the trace.
\<close>

fun constructions ::
  "'i action list
     \<Rightarrow> ((event_class \<times> github \<times> requester \<times> pydict \<times> pydict) \<times> (exn + 'i)) list" where
  "constructions [] = []"
| "constructions (Construct c gh rq headers body res # acts) =
     ((c, gh, rq, headers, body), res) # constructions acts"
| "constructions (a # acts) = constructions acts"

fun invocations :: "'i action list \<Rightarrow> (handler \<times> 'i \<times> exn option) list" where
  "invocations [] = []"
| "invocations (Invoke h event out # acts) = (h, event, out) # invocations acts"
| "invocations (a # acts) = invocations acts"

fun updates :: "'i action list \<Rightarrow> ('i \<times> string \<times> string \<times> exn option) list" where
  "updates [] = []"
| "updates (UpdateCheckRun event conclusion txt out # acts) =
     (event, conclusion, txt, out) # updates acts"
| "updates (a # acts) = updates acts"

text \<open>
  The exception a delivery ends with when a handler has raised \<open>e\<close>, read off the
  check-run updates of the delivery: \<open>e\<close> itself, unless an update was attempted and
  raised.
\<close>

fun surfaced :: "exn \<Rightarrow> ('i \<times> string \<times> string \<times> exn option) list \<Rightarrow> exn" where
  "surfaced e [] = e"
| "surfaced e ((event, conclusion, txt, None) # us) = e"
| "surfaced e ((event, conclusion, txt, Some e') # us) = e'"

text \<open>
  The traces the loop of \<^verbatim>\<open>handle\<close> can leave, with the outcome of the loop: one
  clause for each way through the body of the loop and for each way the loop stops.
\<close>

inductive loop_acts ::
  "('i, 'w) env \<Rightarrow> event_class \<Rightarrow> github \<Rightarrow> requester \<Rightarrow> pydict \<Rightarrow> pydict
     \<Rightarrow> outcome \<Rightarrow> 'i action list \<Rightarrow> bool"
  for E :: "('i, 'w) env" and c :: event_class and gh :: github and rq :: requester
    and headers :: pydict and body :: pydict
where
  exhausted: "loop_acts E c gh rq headers body Returns []"
| out_of_fuel: "loop_acts E c gh rq headers body OutOfFuel []"
| construct_fails:
    "loop_acts E c gh rq headers body (Raises e) [Construct c gh rq headers body (Inl e)]"
| returns:
    "loop_acts E c gh rq headers body r acts \<Longrightarrow>
     loop_acts E c gh rq headers body r
       (Construct c gh rq headers body (Inr ev) # Invoke h ev None # acts)"
| raises:
    "loop_acts E c gh rq headers body (Raises e)
       [Construct c gh rq headers body (Inr ev), Invoke h ev (Some e)]"
| raises_updates:
    "is_Exception e \<Longrightarrow>
     loop_acts E c gh rq headers body (Raises (case out of None \<Rightarrow> e | Some e' \<Rightarrow> e'))
       [Construct c gh rq headers body (Inr ev), Invoke h ev (Some e),
        UpdateCheckRun ev ''failure'' (format_exc E e) out]"

section \<open>Sample handlers\<close>

text \<open>
  \<^verbatim>\<open>def on_comment(event)\<close>, \<^verbatim>\<open>def on_created(event)\<close>, \<^verbatim>\<open>def no_params()\<close>,
  \<^verbatim>\<open>def with_extra(event, extra=None)\<close>, \<^verbatim>\<open>def only_kwargs(**kwargs)\<close>,
  \<^verbatim>\<open>def raises_error(event): raise RuntimeError("boom")\<close>,
  \<^verbatim>\<open>def exits(event): sys.exit()\<close> and
  \<^verbatim>\<open>def registers_more(event): add_handler(IssueCommentCreatedEvent, on_created)\<close>.
\<close>

definition event_param :: parameter where
  "event_param = \<lparr>p_name = ''event'', p_kind = POSITIONAL_OR_KEYWORD, p_has_default = False\<rparr>"

definition extra_param :: parameter where
  "extra_param = \<lparr>p_name = ''extra'', p_kind = POSITIONAL_OR_KEYWORD, p_has_default = True\<rparr>"

definition on_comment :: handler where
  "on_comment = \<lparr>ident = 1, qualname = Some ''on_comment'', signature = Inr [event_param]\<rparr>"

definition on_created :: handler where
  "on_created = \<lparr>ident = 2, qualname = Some ''on_created'', signature = Inr [event_param]\<rparr>"

definition no_params :: handler where
  "no_params = \<lparr>ident = 3, qualname = Some ''no_params'', signature = Inr []\<rparr>"

definition with_extra :: handler where
  "with_extra = \<lparr>ident = 4, qualname = Some ''with_extra'',
     signature = Inr [event_param, extra_param]\<rparr>"

definition only_kwargs :: handler where
  "only_kwargs = \<lparr>ident = 5, qualname = Some ''only_kwargs'',
     signature = Inr [\<lparr>p_name = ''kwargs'', p_kind = VAR_KEYWORD, p_has_default = False\<rparr>]\<rparr>"

definition raises_error :: handler where
  "raises_error = \<lparr>ident = 6, qualname = Some ''raises_error'', signature = Inr [event_param]\<rparr>"

definition exits :: handler where
  "exits = \<lparr>ident = 7, qualname = Some ''exits'', signature = Inr [event_param]\<rparr>"

definition registers_more :: handler where
  "registers_more = \<lparr>ident = 8, qualname = Some ''registers_more'',
     signature = Inr [event_param]\<rparr>"

text \<open>
  Callables without \<^verbatim>\<open>__qualname__\<close>:
  \<^verbatim>\<open>functools.partial(two_params)\<close> for \<^verbatim>\<open>def two_params(event, extra)\<close>, and an
  instance of a class with \<^verbatim>\<open>def __call__(self, event, extra=None)\<close>.
\<close>

definition partial_two_params :: handler where
  "partial_two_params = \<lparr>ident = 9, qualname = None,
     signature = Inr [event_param,
       \<lparr>p_name = ''extra'', p_kind = POSITIONAL_OR_KEYWORD, p_has_default = False\<rparr>]\<rparr>"

definition callable_instance :: handler where
  "callable_instance = \<lparr>ident = 10, qualname = None,
     signature = Inr [event_param, extra_param]\<rparr>"

section \<open>Sample collaborators\<close>

text \<open>
  A world that counts what has happened in it. Calling a sample handler does what its
  source above says; \<^verbatim>\<open>registers_more\<close> runs during a delivery of the created-comment
  event, so the list it appends to is the list the loop iterates. Resolution reads the
  \<^verbatim>\<open>action\<close> field of an issue-comment notification; every construction returns a
  fresh instance, numbered by the counter; no check run is bound; the private key comes
  from the environment.
\<close>

definition sample_call ::
  "handler \<Rightarrow> nat \<Rightarrow> handler list \<times> registry \<times> nat
     \<Rightarrow> exn option \<times> handler list \<times> registry \<times> nat" where
  "sample_call h event = (\<lambda>(items, hs, w).
     if ident h = 1 then (None, items, hs, w)
     else if ident h = 2 then (None, items, hs, Suc w)
     else if ident h = 6 then (Some (Exception ''RuntimeError'' ''boom''), items, hs, Suc w)
     else if ident h = 7 then (Some (BaseException ''SystemExit''), items, hs, w)
     else if ident h = 8 then
       (None, items @ [on_created],
        snd (add_handler IssueCommentCreatedEvent on_created hs), w)
     else (Some TypeError, items, hs, w))"

definition sample_get_event :: "pydict \<Rightarrow> pydict \<Rightarrow> exn + event_class" where
  "sample_get_event headers body =
     (case map_of headers ''X-Github-Event'' of
        None \<Rightarrow> Inl (KeyError ''X-Github-Event'')
      | Some v \<Rightarrow>
          (if map_of body ''action'' = Some (JStr ''created'') then Inr IssueCommentCreatedEvent
           else if map_of body ''action'' = Some (JStr ''deleted'') then Inr IssueCommentDeletedEvent
           else if map_of body ''action'' = Some (JStr ''edited'') then Inr IssueCommentEditedEvent
           else Inr IssueCommentEvent))"

definition sample_env :: "(nat, nat) env" where
  "sample_env =
     \<lparr>call = sample_call,
      get_event = sample_get_event,
      new_event = (\<lambda>c gh rq headers body w. (Inr w, Suc w)),
      check_run = (\<lambda>event w. False),
      update_check_run = (\<lambda>event conclusion txt w. (None, Suc w)),
      format_exc = (\<lambda>e. ''Traceback: '' @ exn_class e),
      int_of_str = map_of [(''7'', 7), (''99'', 99)],
      environ = (\<lambda>w. map_of [(''PRIVATE_KEY'', ''secret'')]),
      read_private_key_file = (\<lambda>w. (Inl (Exception ''FileNotFoundError'' ''private-key.pem''), w)),
      get_access_token = (\<lambda>a installation_id w. (Inr ''token'', Suc w))\<rparr>"

text \<open>The same, with a check run bound to every instance and an update that fails.\<close>

definition failing_update_env :: "(nat, nat) env" where
  "failing_update_env =
     sample_env\<lparr>check_run := (\<lambda>event w. True),
       update_check_run :=
         (\<lambda>event conclusion txt w. (Some (Exception ''GithubException'' ''502''), Suc w))\<rparr>"

text \<open>The same, with a check run bound to every instance and an update that succeeds.\<close>

definition check_run_env :: "(nat, nat) env" where
  "check_run_env = sample_env\<lparr>check_run := (\<lambda>event w. True)\<rparr>"

definition sample_headers :: pydict where
  "sample_headers =
     [(''X-Github-Event'', JStr ''issue_comment''),
      (''X-Github-Hook-Installation-Target-Id'', JStr ''7'')]"

definition headers_without_target :: pydict where
  "headers_without_target = [(''X-Github-Event'', JStr ''issue_comment'')]"

definition sample_body :: pydict where
  "sample_body = [(''action'', JStr ''created''), (''installation'', JObj [(''id'', JInt 1)])]"

text \<open>States at the start of a delivery: an empty trace, the world at zero.\<close>

definition state_of :: "registry \<Rightarrow> (nat, nat) state" where
  "state_of hs = \<lparr>handlers = hs, world = 0, trace = []\<rparr>"


section \<open>Properties of registration\<close>

lemma leaves_not_Nil: "leaves e \<noteq> []"
proof (induction e)
  case (EventClass n subs)
  show ?case
  proof (cases subs)
    case Nil
    then show ?thesis by simp
  next
    case (Cons c cs)
    with EventClass have "leaves c \<noteq> []" by simp
    with Cons show ?thesis by simp
  qed
qed

lemma add_handler_each_append:
  "add_handler_each (xs @ ys) m hs =
     (case add_handler_each xs m hs of
        (Some e, hs') \<Rightarrow> (Some e, hs')
      | (None, hs') \<Rightarrow> add_handler_each ys m hs')"
  by (induction xs arbitrary: hs) (auto split: prod.splits option.splits)

lemma add_handler_leaf:
  "add_handler (EventClass n []) m hs =
     (case validate_signature m of
        Some e \<Rightarrow> (Some e, hs)
      | None \<Rightarrow> (None, dd_append hs (EventClass n []) m))"
  by simp

lemma add_handler_via_leaves:
  shows "add_handler e m hs = add_handler_each (leaves e) m hs"
    and "add_handler_each es m hs = add_handler_each (concat (map leaves es)) m hs"
proof (induction e m hs and es m hs rule: add_handler_add_handler_each.induct)
  case (1 n subs m hs)
  then show ?case by (cases "subs = []") (simp_all split: option.splits)
next
  case (2 m hs)
  then show ?case by simp
next
  case (3 sub_event rest m hs)
  then show ?case
    by (simp add: add_handler_each_append split: prod.splits option.splits)
qed

lemma leaves_are_leaves: "l \<in> set (leaves e) \<Longrightarrow> subclasses l = []"
  by (induction e) (auto split: if_splits)

lemma leaves_filter_classes: "leaves e = filter (\<lambda>c. subclasses c = []) (classes e)"
proof (induction e)
  case (EventClass n subs)
  have "concat (map leaves subs) = concat (map (\<lambda>c. filter (\<lambda>c. subclasses c = []) (classes c)) subs)"
    using EventClass by (induction subs) auto
  then show ?case by (simp add: filter_concat comp_def)
qed

lemma distinct_leaves: "distinct (classes e) \<Longrightarrow> distinct (leaves e)"
  by (simp add: leaves_filter_classes)

lemma set_leaves: "set (leaves e) = {c \<in> set (classes e). subclasses c = []}"
  by (simp add: leaves_filter_classes)

lemma add_handler_each_invalid:
  "validate_signature m = Some x \<Longrightarrow> ls \<noteq> [] \<Longrightarrow> \<forall>l\<in>set ls. subclasses l = []
     \<Longrightarrow> add_handler_each ls m hs = (Some x, hs)"
  by (cases ls; cases "hd ls") auto

lemma add_handler_each_valid:
  "validate_signature m = None \<Longrightarrow> \<forall>l\<in>set ls. subclasses l = []
     \<Longrightarrow> add_handler_each ls m hs = (None, fold (\<lambda>l hs. dd_append hs l m) ls hs)"
proof (induction ls arbitrary: hs)
  case Nil
  then show ?case by simp
next
  case (Cons l ls)
  then show ?case by (cases l) auto
qed

lemma dd_get_dd_append:
  "dd_get (dd_append hs k m) L = (if L = k then dd_get hs k @ [m] else dd_get hs L)"
  by (auto simp: dd_get_def dd_append_def dd_getitem_def split: option.splits)

lemma dom_dd_append: "dom (dd_append hs k m) = insert k (dom hs)"
  by (auto simp: dd_append_def dd_getitem_def split: option.splits if_splits)

lemma dd_get_fold_append:
  "distinct ls \<Longrightarrow>
     dd_get (fold (\<lambda>l hs. dd_append hs l m) ls hs) L =
       (if L \<in> set ls then dd_get hs L @ [m] else dd_get hs L)"
  by (induction ls arbitrary: hs) (auto simp: dd_get_dd_append)

lemma dom_fold_append:
  "dom (fold (\<lambda>l hs. dd_append hs l m) ls hs) = dom hs \<union> set ls"
  by (induction ls arbitrary: hs) (auto simp: dom_dd_append)

lemma add_handler_step:
  assumes "distinct (classes e)" and "subclasses L = []"
  shows "dd_get (snd (add_handler e m hs)) L =
           dd_get hs L @ (if validate_signature m = None \<and> L \<in> set (classes e) then [m] else [])"
proof (cases "validate_signature m")
  case None
  have "add_handler e m hs = (None, fold (\<lambda>l hs. dd_append hs l m) (leaves e) hs)"
    using None by (simp add: add_handler_via_leaves(1) add_handler_each_valid leaves_are_leaves)
  moreover have "L \<in> set (leaves e) \<longleftrightarrow> L \<in> set (classes e)"
    using assms(2) by (simp add: set_leaves)
  ultimately show ?thesis
    using None assms(1) by (simp add: dd_get_fold_append distinct_leaves)
next
  case (Some x)
  then have "add_handler e m hs = (Some x, hs)"
    by (simp add: add_handler_via_leaves(1) add_handler_each_invalid leaves_not_Nil leaves_are_leaves)
  with Some show ?thesis by simp
qed

lemma add_handler_dom:
  "dom (snd (add_handler e m hs)) \<subseteq> dom hs \<union> set (leaves e)"
proof (cases "validate_signature m")
  case None
  then have "add_handler e m hs = (None, fold (\<lambda>l hs. dd_append hs l m) (leaves e) hs)"
    by (simp add: add_handler_via_leaves(1) add_handler_each_valid leaves_are_leaves)
  then show ?thesis by (simp add: dom_fold_append)
next
  case (Some x)
  then have "add_handler e m hs = (Some x, hs)"
    by (simp add: add_handler_via_leaves(1) add_handler_each_invalid leaves_not_Nil leaves_are_leaves)
  then show ?thesis by auto
qed

lemma add_handlers_get:
  assumes "\<forall>(event, m) \<in> set calls. distinct (classes event)" and "subclasses L = []"
  shows "dd_get (add_handlers calls hs) L = dd_get hs L @ registered_for calls L"
  using assms(1)
proof (induction calls arbitrary: hs)
  case Nil
  then show ?case by (simp add: registered_for_def)
next
  case (Cons c calls)
  obtain e m where c: "c = (e, m)" by (cases c)
  from Cons.prems c have d: "distinct (classes e)" by simp
  from Cons.prems have rest: "\<forall>(event, m) \<in> set calls. distinct (classes event)" by simp
  have "dd_get (add_handlers (c # calls) hs) L =
          dd_get (snd (add_handler e m hs)) L @ registered_for calls L"
    using Cons.IH [OF rest] c by simp
  also have "\<dots> = dd_get hs L @ registered_for (c # calls) L"
    using add_handler_step [OF d assms(2), of m hs] c by (simp add: registered_for_def)
  finally show ?case .
qed

lemma add_handlers_dom:
  "(\<forall>k \<in> dom hs. subclasses k = []) \<Longrightarrow> \<forall>k \<in> dom (add_handlers calls hs). subclasses k = []"
proof (induction calls arbitrary: hs)
  case Nil
  then show ?case by simp
next
  case (Cons c calls)
  obtain e m where c: "c = (e, m)" by (cases c)
  have "\<forall>k \<in> dom (snd (add_handler e m hs)). subclasses k = []"
    using add_handler_dom [of e m hs] Cons.prems leaves_are_leaves by blast
  from Cons.IH [OF this] c show ?case by simp
qed

text \<open>
  Claim C1. Take any sequence of \<^verbatim>\<open>add_handler\<close> calls, starting from the empty
  registry, in which each event type heads a hierarchy where no class occurs twice (a
  tree of distinct classes). Then for every leaf type \<open>L\<close> the registry's sequence for
  \<open>L\<close> is exactly the chronological subsequence of the successfully registered handlers
  whose event type is \<open>L\<close> or an ancestor of \<open>L\<close>; every key of the registry is a leaf
  type; and registering on any type is the same as registering on each of its leaf
  descendants in turn.
\<close>

theorem registry_reflects_registrations:
  assumes "\<forall>(event, m) \<in> set calls. distinct (classes event)"
  shows "(\<forall>L. subclasses L = [] \<longrightarrow>
            dd_get (add_handlers calls Map.empty) L = registered_for calls L)
       \<and> (\<forall>k \<in> dom (add_handlers calls Map.empty). subclasses k = [])
       \<and> (\<forall>(event, m) \<in> set calls. \<forall>hs.
            add_handler event m hs = add_handler_each (leaves event) m hs)"
proof (intro conjI allI impI)
  fix L :: event_class
  assume "subclasses L = []"
  from add_handlers_get [OF assms this, of Map.empty]
  show "dd_get (add_handlers calls Map.empty) L = registered_for calls L"
    by (simp add: dd_get_def)
next
  show "\<forall>k \<in> dom (add_handlers calls Map.empty). subclasses k = []"
    by (rule add_handlers_dom) simp
next
  show "\<forall>(event, m) \<in> set calls. \<forall>hs.
          add_handler event m hs = add_handler_each (leaves event) m hs"
    by (simp add: add_handler_via_leaves(1) split: prod.splits)
qed

theorem registry_reflects_registrations_witness:
  "distinct (classes IssueCommentEvent) \<and> distinct (classes IssueCommentCreatedEvent)
   \<and> dd_get (add_handlers [(IssueCommentEvent, on_comment), (IssueCommentEvent, no_params),
        (IssueCommentCreatedEvent, on_created), (IssueCommentEvent, with_extra)] Map.empty)
        IssueCommentCreatedEvent = [on_comment, on_created]
   \<and> dd_get (add_handlers [(IssueCommentEvent, on_comment), (IssueCommentEvent, no_params),
        (IssueCommentCreatedEvent, on_created), (IssueCommentEvent, with_extra)] Map.empty)
        IssueCommentDeletedEvent = [on_comment]"
  using registry_reflects_registrations [of "[(IssueCommentEvent, on_comment), (IssueCommentEvent, no_params),
        (IssueCommentCreatedEvent, on_created), (IssueCommentEvent, with_extra)]"]
  by (simp add: registered_for_def validate_signature_def SignatureError_init_def
      IssueCommentEvent_def IssueCommentCreatedEvent_def IssueCommentDeletedEvent_def
      IssueCommentEditedEvent_def on_comment_def on_created_def no_params_def with_extra_def)


lemma add_handler_invalid:
  "validate_signature m = Some x \<Longrightarrow> add_handler e m hs = (Some x, hs)"
  by (simp add: add_handler_via_leaves(1) add_handler_each_invalid leaves_not_Nil leaves_are_leaves)

lemma add_handler_valid:
  "validate_signature m = None \<Longrightarrow>
     add_handler e m hs = (None, fold (\<lambda>l hs. dd_append hs l m) (leaves e) hs)"
  by (simp add: add_handler_via_leaves(1) add_handler_each_valid leaves_are_leaves)

text \<open>
  A registration that raises, whatever it raises, leaves the registry as it was: the
  signature is validated at the first leaf reached, before anything is appended.
\<close>

lemma failed_registration_is_atomic:
  "fst (add_handler e m hs) \<noteq> None \<Longrightarrow> snd (add_handler e m hs) = hs"
  by (cases "validate_signature m") (simp_all add: add_handler_invalid add_handler_valid)

text \<open>
  What the arity check does for a callable with an introspectable signature of no
  parameter or more than one: the registration is rejected and changes nothing, through
  \<^verbatim>\<open>add_handler\<close> and through the decorator. The exception is the \<^verbatim>\<open>SignatureError\<close>
  naming the handler and its parameters when the callable has a \<^verbatim>\<open>__qualname__\<close>, and
  the \<^verbatim>\<open>AttributeError\<close> of reading \<^verbatim>\<open>__qualname__\<close> when it has none.
\<close>

lemma wrong_arity_rejected:
  assumes "signature m = Inr ps" and "length ps \<noteq> 1"
  shows "add_handler event m hs =
           (Some (case qualname m of
                    None \<Rightarrow> AttributeError ''__qualname__''
                  | Some name \<Rightarrow>
                      SignatureError (''Method '' @ name @ ''('' @ join '', '' (map p_name ps)
                        @ '') signature error. ''
                        @ ''The method must accept only one argument of the Event type'')), hs)
       \<and> webhook_handler event m hs =
           (Inl (case qualname m of
                   None \<Rightarrow> AttributeError ''__qualname__''
                 | Some name \<Rightarrow>
                     SignatureError (''Method '' @ name @ ''('' @ join '', '' (map p_name ps)
                       @ '') signature error. ''
                       @ ''The method must accept only one argument of the Event type'')), hs)"
proof -
  have "validate_signature m =
          Some (case qualname m of
                  None \<Rightarrow> AttributeError ''__qualname__''
                | Some name \<Rightarrow>
                    SignatureError (''Method '' @ name @ ''('' @ join '', '' (map p_name ps)
                      @ '') signature error. ''
                      @ ''The method must accept only one argument of the Event type''))"
    using assms by (simp add: validate_signature_def SignatureError_init_def split: option.splits)
  from add_handler_invalid [OF this] show ?thesis
    by (simp add: webhook_handler_def)
qed

text \<open>
  The arity check counts every declared parameter. A callable with one required
  positional parameter followed by parameters that all have defaults can be called with a
  single positional argument, and its registration is rejected all the same. A callable
  with exactly one parameter, of whatever kind, is accepted: it is appended to the sequence
  of every leaf descendant of the event type.
\<close>

lemma arity_check_counts_every_parameter:
  "(signature m = Inr (p # ps) \<and> ps \<noteq> [] \<and>
      p_kind p \<in> {POSITIONAL_ONLY, POSITIONAL_OR_KEYWORD} \<and> \<not> p_has_default p \<and>
      (\<forall>q \<in> set ps. p_has_default q)
      \<longrightarrow> accepts_one_positional (p # ps)
        \<and> fst (add_handler event m hs) \<noteq> None \<and> snd (add_handler event m hs) = hs
        \<and> (\<forall>name. qualname m = Some name \<longrightarrow>
              fst (add_handler event m hs) =
                Some (SignatureError (''Method '' @ name @ ''('' @ join '', '' (map p_name (p # ps))
                        @ '') signature error. ''
                        @ ''The method must accept only one argument of the Event type''))))
   \<and> (signature m = Inr [q]
      \<longrightarrow> add_handler event m hs =
            (None, fold (\<lambda>l hs. dd_append hs l m) (leaves event) hs)
        \<and> (subclasses event = [] \<longrightarrow>
             snd (add_handler event m hs) = dd_append hs event m))"
proof (intro conjI impI allI)
  assume a: "signature m = Inr (p # ps) \<and> ps \<noteq> [] \<and>
      p_kind p \<in> {POSITIONAL_ONLY, POSITIONAL_OR_KEYWORD} \<and> \<not> p_has_default p \<and>
      (\<forall>q \<in> set ps. p_has_default q)"
  then show "accepts_one_positional (p # ps)" by auto
  from a have len: "length (p # ps) \<noteq> 1" by (cases ps) simp_all
  from a have sg: "signature m = Inr (p # ps)" by simp
  from wrong_arity_rejected [OF sg len, of event hs]
  show "fst (add_handler event m hs) \<noteq> None" "snd (add_handler event m hs) = hs"
    by simp_all
  fix name assume "qualname m = Some name"
  with wrong_arity_rejected [OF sg len, of event hs]
  show "fst (add_handler event m hs) =
      Some (SignatureError (''Method '' @ name @ ''('' @ join '', '' (map p_name (p # ps))
              @ '') signature error. ''
              @ ''The method must accept only one argument of the Event type''))"
    by simp
next
  assume a: "signature m = Inr [q]"
  then have v: "validate_signature m = None" by (simp add: validate_signature_def)
  from add_handler_valid [OF v]
  show "add_handler event m hs =
      (None, fold (\<lambda>l hs. dd_append hs l m) (leaves event) hs)" .
  assume "subclasses event = []"
  with v show "snd (add_handler event m hs) = dd_append hs event m"
    by (cases event) simp
qed

text \<open>
  Claim C5. The claim is what \<^verbatim>\<open>_validate_signature\<close> documents (``Raises:
  SignatureError: If the method has a wrong signature''), and the code misses it for a
  callable without \<^verbatim>\<open>__qualname__\<close>: registering \<^verbatim>\<open>functools.partial(two_params)\<close>,
  whose signature declares two parameters, raises \<^verbatim>\<open>AttributeError\<close> from the
  constructor of \<^verbatim>\<open>SignatureError\<close>, not \<^verbatim>\<open>SignatureError\<close>. The registry is left as
  it was (that part of the claim holds, by \<open>failed_registration_is_atomic\<close>).
\<close>

theorem partial_of_wrong_arity_raises_AttributeError:
  "signature partial_two_params =
     Inr [event_param, \<lparr>p_name = ''extra'', p_kind = POSITIONAL_OR_KEYWORD, p_has_default = False\<rparr>]
   \<and> add_handler IssueCommentEvent partial_two_params [IssueCommentCreatedEvent \<mapsto> [on_created]] =
       (Some (AttributeError ''__qualname__''), [IssueCommentCreatedEvent \<mapsto> [on_created]])
   \<and> webhook_handler IssueCommentEvent partial_two_params Map.empty =
       (Inl (AttributeError ''__qualname__''), Map.empty)"
  by (simp add: add_handler_invalid webhook_handler_def validate_signature_def
      SignatureError_init_def partial_two_params_def)

text \<open>
  Claim C10. The arity check does count every declared parameter
  (\<open>arity_check_counts_every_parameter\<close>), but the rejection the claim describes is not
  always the documented \<^verbatim>\<open>SignatureError\<close>: an instance of a class with
  \<^verbatim>\<open>def __call__(self, event, extra=None)\<close> can be called with a single positional
  argument, has two declared parameters, and its registration raises
  \<^verbatim>\<open>AttributeError\<close>, because the instance has no \<^verbatim>\<open>__qualname__\<close> for the message.
\<close>

theorem callable_instance_with_default_raises_AttributeError:
  "signature callable_instance = Inr [event_param, extra_param]
   \<and> accepts_one_positional [event_param, extra_param]
   \<and> add_handler IssueCommentEvent callable_instance Map.empty =
       (Some (AttributeError ''__qualname__''), Map.empty)"
  by (simp add: add_handler_invalid validate_signature_def SignatureError_init_def
      callable_instance_def event_param_def extra_param_def)

section \<open>Properties of dispatch\<close>

lemma handle_loop_numeral:
  "handle_loop (numeral k) E c gh rq hdrs bd i items s =
     (if i < length items then
        (case handle_one E c gh rq hdrs bd (items ! i) items s of
           (Some e, items', s') \<Rightarrow> (Raises e, items', s')
         | (None, items', s') \<Rightarrow>
             handle_loop (pred_numeral k) E c gh rq hdrs bd (Suc i) items' s')
      else (Returns, items, s))"
  by (simp add: numeral_eq_Suc)

lemmas sample_defs =
  handle_def handle_setup_def get_auth_def truthy_def handle_one_def dd_get_def state_of_def
  sample_env_def failing_update_env_def check_run_env_def sample_get_event_def sample_call_def
  sample_headers_def headers_without_target_def sample_body_def
  on_comment_def on_created_def raises_error_def exits_def registers_more_def event_param_def
  IssueCommentCreatedEvent_def IssueCommentDeletedEvent_def
  validate_signature_def dd_append_def dd_getitem_def handle_loop_numeral

lemma handle_one_cases:
  assumes "handle_one E c gh rq hdrs bd h items s = (r, items', s')"
  obtains
    (construct_fails) e w1 where
      "new_event E c gh rq hdrs bd (world s) = (Inl e, w1)" "r = Some e" "items' = items"
      "s' = s\<lparr>world := w1, trace := trace s @ [Construct c gh rq hdrs bd (Inl e)]\<rparr>"
  | (returns) ev w1 hs' w2 where
      "new_event E c gh rq hdrs bd (world s) = (Inr ev, w1)"
      "call E h ev (items, handlers s, w1) = (None, items', hs', w2)" "r = None"
      "s' = s\<lparr>handlers := hs', world := w2,
         trace := trace s @ [Construct c gh rq hdrs bd (Inr ev), Invoke h ev None]\<rparr>"
  | (raises) ev w1 e hs' w2 where
      "new_event E c gh rq hdrs bd (world s) = (Inr ev, w1)"
      "call E h ev (items, handlers s, w1) = (Some e, items', hs', w2)"
      "\<not> (is_Exception e \<and> check_run E ev w2)" "r = Some e"
      "s' = s\<lparr>handlers := hs', world := w2,
         trace := trace s @ [Construct c gh rq hdrs bd (Inr ev), Invoke h ev (Some e)]\<rparr>"
  | (raises_updates) ev w1 e hs' w2 out w3 where
      "new_event E c gh rq hdrs bd (world s) = (Inr ev, w1)"
      "call E h ev (items, handlers s, w1) = (Some e, items', hs', w2)"
      "is_Exception e" "check_run E ev w2"
      "update_check_run E ev ''failure'' (format_exc E e) w2 = (out, w3)"
      "r = Some (case out of None \<Rightarrow> e | Some e' \<Rightarrow> e')"
      "s' = s\<lparr>handlers := hs', world := w3,
         trace := trace s @ [Construct c gh rq hdrs bd (Inr ev), Invoke h ev (Some e),
           UpdateCheckRun ev ''failure'' (format_exc E e) out]\<rparr>"
proof -
  obtain res w1 where ne: "new_event E c gh rq hdrs bd (world s) = (res, w1)"
    by (cases "new_event E c gh rq hdrs bd (world s)")
  show thesis
  proof (cases res)
    case (Inl e)
    with ne assms have "r = Some e" "items' = items"
      "s' = s\<lparr>world := w1, trace := trace s @ [Construct c gh rq hdrs bd (Inl e)]\<rparr>"
      by (simp_all add: handle_one_def)
    with ne Inl show ?thesis by (intro construct_fails [of e w1]) simp_all
  next
    case (Inr ev)
    with ne have ne': "new_event E c gh rq hdrs bd (world s) = (Inr ev, w1)" by simp
    obtain out its hs' w2 where ca: "call E h ev (items, handlers s, w1) = (out, its, hs', w2)"
      by (cases "call E h ev (items, handlers s, w1)")
    show ?thesis
    proof (cases out)
      case None
      with ne' ca assms have "r = None" "items' = its"
        "s' = s\<lparr>handlers := hs', world := w2,
           trace := trace s @ [Construct c gh rq hdrs bd (Inr ev), Invoke h ev None]\<rparr>"
        by (simp_all add: handle_one_def)
      with ne' ca None show ?thesis by (intro returns [of ev w1 hs' w2]) simp_all
    next
      case (Some e)
      with ca have ca': "call E h ev (items, handlers s, w1) = (Some e, its, hs', w2)" by simp
      show ?thesis
      proof (cases "is_Exception e \<and> check_run E ev w2")
        case False
        with ne' ca' assms have "r = Some e" "items' = its"
          "s' = s\<lparr>handlers := hs', world := w2,
             trace := trace s @ [Construct c gh rq hdrs bd (Inr ev), Invoke h ev (Some e)]\<rparr>"
          by (auto simp add: handle_one_def split: if_splits)
        with ne' ca' False show ?thesis by (intro raises [of ev w1 e hs' w2]) simp_all
      next
        case True
        obtain out' w3 where
          up: "update_check_run E ev ''failure'' (format_exc E e) w2 = (out', w3)"
          by (cases "update_check_run E ev ''failure'' (format_exc E e) w2")
        have "r = Some (case out' of None \<Rightarrow> e | Some e' \<Rightarrow> e') \<and> items' = its \<and>
          s' = s\<lparr>handlers := hs', world := w3,
             trace := trace s @ [Construct c gh rq hdrs bd (Inr ev), Invoke h ev (Some e),
               UpdateCheckRun ev ''failure'' (format_exc E e) out']\<rparr>"
        proof (cases out')
          case None
          with True ne' ca' up assms show ?thesis by (auto simp add: handle_one_def)
        next
          case (Some e')
          with True ne' ca' up assms show ?thesis by (auto simp add: handle_one_def)
        qed
        with ne' ca' True up show ?thesis
          by (intro raises_updates [of ev w1 e hs' w2 out' w3]) simp_all
      qed
    qed
  qed
qed

lemma constructions_append: "constructions (xs @ ys) = constructions xs @ constructions ys"
  by (induction xs rule: constructions.induct) simp_all

lemma invocations_append: "invocations (xs @ ys) = invocations xs @ invocations ys"
  by (induction xs rule: invocations.induct) simp_all

lemma updates_append: "updates (xs @ ys) = updates xs @ updates ys"
  by (induction xs rule: updates.induct) simp_all

lemma handle_loop_empty:
  "handle_loop fuel E c gh rq hdrs bd 0 [] s = (Returns, [], s)"
  by (cases fuel) simp_all

lemma handle_loop_acts:
  assumes "handle_loop fuel E c gh rq hdrs bd i items s = (r, items', s')"
  shows "\<exists>acts. trace s' = trace s @ acts \<and> loop_acts E c gh rq hdrs bd r acts"
  using assms
proof (induction fuel arbitrary: i items s)
  case 0
  then show ?case
    by (auto split: if_splits intro: loop_acts.exhausted loop_acts.out_of_fuel)
next
  case (Suc fuel)
  show ?case
  proof (cases "i < length items")
    case False
    with Suc.prems show ?thesis by (auto intro: loop_acts.exhausted)
  next
    case True
    obtain r1 its s1 where one: "handle_one E c gh rq hdrs bd (items ! i) items s = (r1, its, s1)"
      by (cases "handle_one E c gh rq hdrs bd (items ! i) items s")
    from one show ?thesis
    proof (cases rule: handle_one_cases)
      case (construct_fails e w1)
      with Suc.prems True one show ?thesis
        by (auto intro: loop_acts.construct_fails)
    next
      case (returns ev w1 hs' w2)
      with Suc.prems True one
      have "handle_loop fuel E c gh rq hdrs bd (Suc i) its s1 = (r, items', s')" by simp
      from Suc.IH [OF this] obtain acts where
        "trace s' = trace s1 @ acts" "loop_acts E c gh rq hdrs bd r acts" by blast
      with returns show ?thesis
        by (auto intro: loop_acts.returns)
    next
      case (raises ev w1 e hs' w2)
      with Suc.prems True one show ?thesis
        by (auto intro: loop_acts.raises)
    next
      case (raises_updates ev w1 e hs' w2 out w3)
      with Suc.prems True one show ?thesis
        by (auto intro: loop_acts.raises_updates)
    qed
  qed
qed

lemma handle_setup_class:
  "handle_setup E headers body w = (Inr (c, gh, rq), w') \<Longrightarrow> get_event E headers body = Inr c"
  by (auto simp: handle_setup_def split: sum.splits prod.splits)

lemma handle_setup_missing_target:
  assumes "map_of headers ''X-Github-Hook-Installation-Target-Id'' = None"
  shows "handle_setup E headers body w =
           (Inl (case get_event E headers body of
                   Inl e \<Rightarrow> e
                 | Inr c \<Rightarrow> KeyError ''X-Github-Hook-Installation-Target-Id''), w)"
  using assms by (simp add: handle_setup_def split: sum.splits)

lemma handle_acts:
  assumes "handle fuel E headers body s = (r, s')" and "trace s' = trace s @ acts"
  shows "(acts = [] \<and> (\<exists>e w. r = Raises e \<and> handle_setup E headers body (world s) = (Inl e, w)))
       \<or> (\<exists>c gh rq w. handle_setup E headers body (world s) = (Inr (c, gh, rq), w)
             \<and> loop_acts E c gh rq headers body r acts)"
proof -
  obtain res w where su: "handle_setup E headers body (world s) = (res, w)"
    by (cases "handle_setup E headers body (world s)")
  show ?thesis
  proof (cases res)
    case (Inl e)
    with su assms show ?thesis by (auto simp: handle_def)
  next
    case (Inr x)
    obtain c gh rq where x: "x = (c, gh, rq)" by (cases x)
    obtain items' where
      "handle_loop fuel E c gh rq headers body 0 (dd_get (handlers s) c) (s\<lparr>world := w\<rparr>) =
         (r, items', s')"
      using su Inr x assms(1) by (auto simp: handle_def split: prod.splits)
    from handle_loop_acts [OF this] obtain acts' where
      "trace s' = trace s @ acts'" "loop_acts E c gh rq headers body r acts'"
      by auto
    with assms(2) su Inr x show ?thesis by auto
  qed
qed

lemma loop_acts_raise_is_last:
  assumes "loop_acts E c gh rq hdrs bd r acts"
    and "k < length (invocations acts)" and "invocations acts ! k = (h, ev, Some e)"
  shows "Suc k = length (invocations acts)
       \<and> (updates acts = [] \<or> (\<exists>out. updates acts = [(ev, ''failure'', format_exc E e, out)]))
       \<and> r = Raises (surfaced e (updates acts))"
  using assms
proof (induction arbitrary: k rule: loop_acts.induct)
  case (returns r acts h' ev')
  show ?case
  proof (cases k)
    case 0
    with returns.prems show ?thesis by simp
  next
    case (Suc k')
    with returns.prems have "k' < length (invocations acts)" "invocations acts ! k' = (h, ev, Some e)"
      by simp_all
    from returns.IH [OF this] Suc show ?thesis by simp
  qed
next
  case (raises_updates e0 out ev' h')
  then show ?case by (cases out) auto
qed simp_all

lemma loop_acts_constructions:
  assumes "loop_acts E c gh rq hdrs bd r acts"
  shows "(\<forall>x \<in> set (constructions acts). fst x = (c, gh, rq, hdrs, bd))
       \<and> (\<exists>fail. map snd (constructions acts) =
                    map (\<lambda>(h, ev, out). Inr ev) (invocations acts) @ fail
                \<and> (fail = [] \<or> (\<exists>e. fail = [Inl e] \<and> r = Raises e)))"
  using assms
proof (induction rule: loop_acts.induct)
  case (returns r acts h ev)
  then show ?case by auto
qed auto

text \<open>
  Claim C2, as amended. In any run of \<^verbatim>\<open>handle\<close>, however long, if the \<open>k\<close>-th
  handler invocation of the delivery raises, it is the last invocation of the delivery:
  no handler is invoked after it. At most one check-run update is attempted, for the
  instance of that invocation, and the call raises: the handler's own exception, unless
  the update was attempted and itself raised, in which case the call raises the exception
  of the update instead.
\<close>

theorem raising_handler_ends_delivery:
  assumes "handle fuel E headers body s = (r, s')" and "trace s' = trace s @ acts"
    and "k < length (invocations acts)" and "invocations acts ! k = (h, ev, Some e)"
  shows "Suc k = length (invocations acts)
       \<and> (updates acts = [] \<or> (\<exists>out. updates acts = [(ev, ''failure'', format_exc E e, out)]))
       \<and> r = Raises (surfaced e (updates acts))"
proof -
  from handle_acts [OF assms(1,2)] assms(3)
  obtain c gh rq w where "loop_acts E c gh rq headers body r acts"
    by auto
  from loop_acts_raise_is_last [OF this assms(3,4)] show ?thesis .
qed

theorem raising_handler_ends_delivery_witness:
  "map (\<lambda>(h, ev, out). qualname h)
     (invocations (trace (snd (handle 5 sample_env sample_headers sample_body
        (state_of [IssueCommentCreatedEvent \<mapsto> [on_comment, raises_error, on_created]]))))) =
     [Some ''on_comment'', Some ''raises_error'']
   \<and> fst (handle 5 sample_env sample_headers sample_body
        (state_of [IssueCommentCreatedEvent \<mapsto> [on_comment, raises_error, on_created]])) =
     Raises (Exception ''RuntimeError'' ''boom'')"
proof -
  let ?s = "state_of [IssueCommentCreatedEvent \<mapsto> [on_comment, raises_error, on_created]]"
  let ?run = "handle 5 sample_env sample_headers sample_body ?s"
  have run: "?run = (fst ?run, snd ?run)" by simp
  have tr: "trace (snd ?run) = trace ?s @ trace (snd ?run)" by (simp add: state_of_def)
  have k: "1 < length (invocations (trace (snd ?run)))" by (simp add: sample_defs)
  have at: "invocations (trace (snd ?run)) ! 1 =
      (raises_error, 2, Some (Exception ''RuntimeError'' ''boom''))"
    by (simp add: sample_defs)
  from raising_handler_ends_delivery [OF run tr k at] show ?thesis
    by (simp add: sample_defs)
qed

text \<open>
  The claim as stated fails: when a check run is bound and its update raises, the caller
  of \<^verbatim>\<open>handle\<close> gets the exception of the update, not the one the handler raised.
\<close>

theorem raising_handler_counterexample:
  "map (\<lambda>(h, ev, out). (qualname h, out))
     (invocations (trace (snd (handle 5 failing_update_env sample_headers sample_body
        (state_of [IssueCommentCreatedEvent \<mapsto> [raises_error, on_created]]))))) =
     [(Some ''raises_error'', Some (Exception ''RuntimeError'' ''boom''))]
   \<and> fst (handle 5 failing_update_env sample_headers sample_body
        (state_of [IssueCommentCreatedEvent \<mapsto> [raises_error, on_created]])) =
     Raises (Exception ''GithubException'' ''502'')
   \<and> Exception ''GithubException'' ''502'' \<noteq> Exception ''RuntimeError'' ''boom''"
  by (simp add: sample_defs)

text \<open>
  Claim C6, as amended. In any run of \<^verbatim>\<open>handle\<close>, an event instance is constructed
  once for each handler invocation (inside the loop), not once for the delivery: the
  instances passed to the handlers are, in order, the results of the successful
  constructions, and the only other construction is a last one that raises and ends the
  call with its exception. Every construction gets the same arguments: the resolved event
  class, the client and requester of the set-up, and the raw headers and body.
\<close>

theorem one_construction_per_invocation:
  assumes "handle fuel E headers body s = (r, s')" and "trace s' = trace s @ acts"
  shows "(\<exists>fail. map snd (constructions acts) =
                    map (\<lambda>(h, ev, out). Inr ev) (invocations acts) @ fail
                \<and> (fail = [] \<or> (\<exists>e. fail = [Inl e] \<and> r = Raises e)))
       \<and> (\<forall>x \<in> set (constructions acts).
             \<exists>c gh rq w. handle_setup E headers body (world s) = (Inr (c, gh, rq), w)
               \<and> fst x = (c, gh, rq, headers, body))"
proof -
  from handle_acts [OF assms] show ?thesis
  proof
    assume "acts = [] \<and>
      (\<exists>e w. r = Raises e \<and> handle_setup E headers body (world s) = (Inl e, w))"
    then show ?thesis by simp
  next
    assume "\<exists>c gh rq w. handle_setup E headers body (world s) = (Inr (c, gh, rq), w)
             \<and> loop_acts E c gh rq headers body r acts"
    then obtain c gh rq w where su: "handle_setup E headers body (world s) = (Inr (c, gh, rq), w)"
      and la: "loop_acts E c gh rq headers body r acts"
      by auto
    from loop_acts_constructions [OF la] su show ?thesis by simp
  qed
qed

theorem one_construction_per_invocation_witness:
  "map snd (constructions (trace (snd (handle 5 sample_env sample_headers sample_body
      (state_of [IssueCommentCreatedEvent \<mapsto> [on_comment, on_created, raises_error]]))))) =
     [Inr 1, Inr 2, Inr 4]
   \<and> map (\<lambda>(h, ev, out). (qualname h, ev))
       (invocations (trace (snd (handle 5 sample_env sample_headers sample_body
         (state_of [IssueCommentCreatedEvent \<mapsto> [on_comment, on_created, raises_error]]))))) =
     [(Some ''on_comment'', 1), (Some ''on_created'', 2), (Some ''raises_error'', 4)]"
proof -
  let ?s = "state_of [IssueCommentCreatedEvent \<mapsto> [on_comment, on_created, raises_error]]"
  let ?run = "handle 5 sample_env sample_headers sample_body ?s"
  have run: "?run = (fst ?run, snd ?run)" by simp
  have tr: "trace (snd ?run) = trace ?s @ trace (snd ?run)" by (simp add: state_of_def)
  from one_construction_per_invocation [OF run tr] show ?thesis
    by (simp add: sample_defs)
qed

text \<open>
  The claim as stated fails: a delivery to two handlers constructs two event instances,
  one for each handler, and a delivery to no handler constructs none.
\<close>

theorem one_construction_counterexample:
  "length (constructions (trace (snd (handle 5 sample_env sample_headers sample_body
      (state_of [IssueCommentCreatedEvent \<mapsto> [on_comment, on_created]]))))) = 2
   \<and> map (\<lambda>(h, ev, out). (qualname h, ev))
       (invocations (trace (snd (handle 5 sample_env sample_headers sample_body
         (state_of [IssueCommentCreatedEvent \<mapsto> [on_comment, on_created]]))))) =
     [(Some ''on_comment'', 1), (Some ''on_created'', 2)]
   \<and> constructions (trace (snd (handle 5 sample_env sample_headers sample_body
        (state_of Map.empty)))) = []"
  by (simp add: sample_defs)

text \<open>
  Claim C8, as amended. When the headers lack
  \<^verbatim>\<open>X-Github-Hook-Installation-Target-Id\<close>, \<^verbatim>\<open>handle\<close> raises at once and leaves the
  whole state as it was: nothing is constructed, no handler is invoked, no credentials are
  requested. The exception is the \<^verbatim>\<open>KeyError\<close> of the failed lookup, or, when event
  resolution (which runs first) itself raises, the exception of the resolution.
\<close>

theorem missing_target_header_raises_at_once:
  assumes "map_of headers ''X-Github-Hook-Installation-Target-Id'' = None"
  shows "handle fuel E headers body s =
           (Raises (case get_event E headers body of
                      Inl e \<Rightarrow> e
                    | Inr c \<Rightarrow> KeyError ''X-Github-Hook-Installation-Target-Id''), s)"
  by (simp add: handle_def handle_setup_missing_target [OF assms])

theorem missing_target_header_raises_at_once_witness:
  "handle 5 sample_env headers_without_target sample_body
       (state_of [IssueCommentCreatedEvent \<mapsto> [on_created]]) =
     (Raises (KeyError ''X-Github-Hook-Installation-Target-Id''),
      state_of [IssueCommentCreatedEvent \<mapsto> [on_created]])"
  using missing_target_header_raises_at_once [of headers_without_target 5 sample_env sample_body
      "state_of [IssueCommentCreatedEvent \<mapsto> [on_created]]"]
  by (simp add: headers_without_target_def sample_env_def sample_get_event_def sample_body_def)

text \<open>
  The claim as stated fails: the exception of a delivery without the header is Python's
  \<^verbatim>\<open>KeyError\<close>, not a \<^verbatim>\<open>MalformedRequestError\<close>.
\<close>

theorem missing_target_header_counterexample:
  "map_of headers_without_target ''X-Github-Hook-Installation-Target-Id'' = None
   \<and> fst (handle 5 sample_env headers_without_target sample_body (state_of Map.empty)) =
       Raises (KeyError ''X-Github-Hook-Installation-Target-Id'')
   \<and> exn_class (KeyError ''X-Github-Hook-Installation-Target-Id'') \<noteq> ''MalformedRequestError''"
  by (simp add: handle_def handle_setup_def headers_without_target_def sample_env_def
      sample_get_event_def sample_body_def)

text \<open>
  Claim C7, as amended. When the resolved event type has no registered handlers,
  \<^verbatim>\<open>handle\<close> constructs no event instance, invokes no handler and updates no check run
  (the trace is unchanged), and leaves the registry unchanged. It still runs its set-up
  (reading the two identifiers and \<^verbatim>\<open>_get_auth\<close>): it raises exactly when the set-up
  raises, it returns otherwise, and the world after the call is the world the set-up
  leaves.
\<close>

theorem no_handlers_only_setup:
  assumes "get_event E headers body = Inr c" and "dd_get (handlers s) c = []"
  shows "handle fuel E headers body s =
           (case handle_setup E headers body (world s) of
              (Inl e, w) \<Rightarrow> (Raises e, s\<lparr>world := w\<rparr>)
            | (Inr x, w) \<Rightarrow> (Returns, s\<lparr>world := w\<rparr>))
       \<and> trace (snd (handle fuel E headers body s)) = trace s
       \<and> handlers (snd (handle fuel E headers body s)) = handlers s"
proof -
  obtain res w where su: "handle_setup E headers body (world s) = (res, w)"
    by (cases "handle_setup E headers body (world s)")
  show ?thesis
  proof (cases res)
    case (Inl e)
    with su show ?thesis by (simp add: handle_def)
  next
    case (Inr x)
    obtain c' gh rq where x: "x = (c', gh, rq)" by (cases x)
    with su Inr have "get_event E headers body = Inr c'"
      by (simp add: handle_setup_class)
    with assms(1) have "c' = c" by simp
    with su Inr x assms(2) show ?thesis by (simp add: handle_def handle_loop_empty)
  qed
qed

theorem no_handlers_only_setup_witness:
  "handle 5 sample_env sample_headers sample_body (state_of [IssueCommentDeletedEvent \<mapsto> [on_comment]]) =
     (Returns, \<lparr>handlers = [IssueCommentDeletedEvent \<mapsto> [on_comment]], world = 1, trace = []\<rparr>)"
  using no_handlers_only_setup [of sample_env sample_headers sample_body IssueCommentCreatedEvent
      "state_of [IssueCommentDeletedEvent \<mapsto> [on_comment]]" 5]
  by (simp add: sample_headers_def sample_env_def sample_get_event_def sample_body_def
      handle_setup_def get_auth_def truthy_def state_of_def dd_get_def
      IssueCommentCreatedEvent_def IssueCommentDeletedEvent_def)

text \<open>
  The claim as stated fails: with no handler registered for the resolved type, a
  delivery without the target header raises, and a well-formed delivery changes the world
  (it requests an access token).
\<close>

theorem no_handlers_counterexample:
  "get_event sample_env headers_without_target sample_body = Inr IssueCommentCreatedEvent
   \<and> get_event sample_env sample_headers sample_body = Inr IssueCommentCreatedEvent
   \<and> dd_get (handlers (state_of Map.empty)) IssueCommentCreatedEvent = []
   \<and> fst (handle 5 sample_env headers_without_target sample_body (state_of Map.empty)) =
       Raises (KeyError ''X-Github-Hook-Installation-Target-Id'')
   \<and> world (state_of Map.empty) = 0
   \<and> world (snd (handle 5 sample_env sample_headers sample_body (state_of Map.empty))) = 1"
  by (simp add: sample_defs)






lemma handle_loop_exhausted:
  "\<not> i < length items \<Longrightarrow> handle_loop fuel E c gh rq hdrs bd i items s = (Returns, items, s)"
  by (cases fuel) simp_all

lemma handle_loop_OutOfFuel:
  "handle_loop n E c gh rq hdrs bd i items s = (OutOfFuel, items1, s1) \<Longrightarrow> i + n < length items1"
proof (induction n arbitrary: i items s)
  case 0
  then show ?case by (auto split: if_splits)
next
  case (Suc n)
  then show ?case
    by (fastforce split: if_splits prod.splits option.splits)
qed

lemma handle_loop_add:
  "handle_loop (n + m) E c gh rq hdrs bd i items s =
     (case handle_loop n E c gh rq hdrs bd i items s of
        (OutOfFuel, items1, s1) \<Rightarrow> handle_loop m E c gh rq hdrs bd (i + n) items1 s1
      | (Returns, x) \<Rightarrow> (Returns, x)
      | (Raises e, x) \<Rightarrow> (Raises e, x))"
proof (induction n arbitrary: i items s)
  case 0
  then show ?case by (simp add: handle_loop_exhausted)
next
  case (Suc n)
  then show ?case
    by (simp split: prod.splits option.splits outcome.splits)
qed

lemma handle_one_raising:
  assumes "new_event E c gh rq hdrs bd (world s1) = (Inr ev, w1)"
    and "call E h ev (items, handlers s1, w1) = (Some e, items', hs', w2)"
  shows "handle_one E c gh rq hdrs bd h items s1 =
     (if is_Exception e \<and> check_run E ev w2
      then (case update_check_run E ev ''failure'' (format_exc E e) w2 of
              (out, w3) \<Rightarrow>
                (Some (case out of None \<Rightarrow> e | Some e' \<Rightarrow> e'), items',
                 s1\<lparr>handlers := hs', world := w3,
                    trace := trace s1 @ [Construct c gh rq hdrs bd (Inr ev), Invoke h ev (Some e),
                      UpdateCheckRun ev ''failure'' (format_exc E e) out]\<rparr>))
      else (Some e, items',
            s1\<lparr>handlers := hs', world := w2,
               trace := trace s1 @ [Construct c gh rq hdrs bd (Inr ev), Invoke h ev (Some e)]\<rparr>))"
  using assms by (simp add: handle_one_def split: prod.splits option.splits)

lemma handle_at_raising_handler:
  assumes "handle_setup E headers body (world s) = (Inr (c, gh, rq), w)"
    and "handle_loop n E c gh rq headers body 0 (dd_get (handlers s) c) (s\<lparr>world := w\<rparr>) =
           (OutOfFuel, items, s1)"
    and "new_event E c gh rq headers body (world s1) = (Inr ev, w1)"
    and "call E (items ! n) ev (items, handlers s1, w1) = (Some e, items', hs', w2)"
    and "n < fuel"
  shows "handle fuel E headers body s =
     (Raises (the (fst (handle_one E c gh rq headers body (items ! n) items s1))),
      snd (snd (handle_one E c gh rq headers body (items ! n) items s1)))"
proof -
  from assms(5) obtain m where fuel: "fuel = n + Suc m"
    by (metis add_Suc_right less_imp_Suc_add)
  from handle_loop_OutOfFuel [OF assms(2)] have n: "n < length items" by simp
  have "fst (handle_one E c gh rq headers body (items ! n) items s1) \<noteq> None"
    by (simp add: handle_one_raising [OF assms(3,4)] split: prod.splits)
  then obtain x its s2 where one:
    "handle_one E c gh rq headers body (items ! n) items s1 = (Some x, its, s2)"
    by (cases "handle_one E c gh rq headers body (items ! n) items s1") auto
  have "handle_loop fuel E c gh rq headers body 0 (dd_get (handlers s) c) (s\<lparr>world := w\<rparr>) =
      (Raises x, its, s2)"
    unfolding fuel handle_loop_add using assms(2) n one by simp
  with assms(1) one show ?thesis by (simp add: handle_def)
qed

text \<open>
  Claim C3, as amended. Take a delivery in which the first \<open>n\<close> iterations of the loop
  complete and the handler of the next one, called with its instance, raises \<open>e\<close>. If
  \<open>e\<close> is an instance of \<^verbatim>\<open>Exception\<close> and the instance's \<^verbatim>\<open>check_run\<close> is set
  (truthy) once the handler has raised, \<^verbatim>\<open>handle\<close> calls \<^verbatim>\<open>update_check_run\<close> once,
  with conclusion \<open>failure\<close> and the formatted traceback of \<open>e\<close> as text, and then
  raises. If no check run is set, or if \<open>e\<close> is not an instance of \<^verbatim>\<open>Exception\<close> (the
  handler clause is \<^verbatim>\<open>except Exception\<close>), no update is attempted and \<open>e\<close> propagates.
\<close>

theorem check_run_updated_on_Exception:
  assumes "handle_setup E headers body (world s) = (Inr (c, gh, rq), w)"
    and "handle_loop n E c gh rq headers body 0 (dd_get (handlers s) c) (s\<lparr>world := w\<rparr>) =
           (OutOfFuel, items, s1)"
    and "new_event E c gh rq headers body (world s1) = (Inr ev, w1)"
    and "call E (items ! n) ev (items, handlers s1, w1) = (Some e, items', hs', w2)"
    and "n < fuel"
  shows "trace (snd (handle fuel E headers body s)) =
           trace s1 @ [Construct c gh rq headers body (Inr ev), Invoke (items ! n) ev (Some e)] @
             (if is_Exception e \<and> check_run E ev w2
              then [UpdateCheckRun ev ''failure'' (format_exc E e)
                      (fst (update_check_run E ev ''failure'' (format_exc E e) w2))]
              else [])
       \<and> (\<exists>x. fst (handle fuel E headers body s) = Raises x)
       \<and> (\<not> (is_Exception e \<and> check_run E ev w2) \<longrightarrow>
            fst (handle fuel E headers body s) = Raises e)"
  by (simp add: handle_at_raising_handler [OF assms] handle_one_raising [OF assms(3,4)]
      split: prod.splits)

theorem check_run_updated_on_Exception_witness:
  "updates (trace (snd (handle 5 check_run_env sample_headers sample_body
      (state_of [IssueCommentCreatedEvent \<mapsto> [on_comment, raises_error, on_created]])))) =
     [(2, ''failure'', ''Traceback: RuntimeError'', None)]
   \<and> updates (trace (snd (handle 5 sample_env sample_headers sample_body
      (state_of [IssueCommentCreatedEvent \<mapsto> [on_comment, raises_error, on_created]])))) = []"
proof -
  let ?hs = "[IssueCommentCreatedEvent \<mapsto> [on_comment, raises_error, on_created]]"
  let ?items = "[on_comment, raises_error, on_created]"
  let ?s = "state_of ?hs"
  let ?rq = "\<lparr>r_auth = Token ''token'', r_verify = True, r_pool_size = None\<rparr>"
  let ?s1 = "\<lparr>handlers = ?hs, world = 2,
     trace = [Construct IssueCommentCreatedEvent (Github (Token ''token'')) ?rq
                sample_headers sample_body (Inr 1), Invoke on_comment 1 None]\<rparr>"
  have a1: "handle_setup check_run_env sample_headers sample_body (world ?s) =
      (Inr (IssueCommentCreatedEvent, Github (Token ''token''), ?rq), 1)"
    by (simp add: sample_defs)
  have a2: "handle_loop (Suc 0) check_run_env IssueCommentCreatedEvent (Github (Token ''token'')) ?rq
      sample_headers sample_body 0 (dd_get (handlers ?s) IssueCommentCreatedEvent)
      (?s\<lparr>world := 1\<rparr>) = (OutOfFuel, ?items, ?s1)"
    by (simp add: handle_one_def check_run_env_def sample_env_def sample_call_def state_of_def
        on_comment_def dd_get_def)
  have a3: "new_event check_run_env IssueCommentCreatedEvent (Github (Token ''token'')) ?rq
      sample_headers sample_body (world ?s1) = (Inr 2, 3)"
    by (simp add: check_run_env_def sample_env_def)
  have a4: "call check_run_env (?items ! Suc 0) 2 (?items, handlers ?s1, 3) =
      (Some (Exception ''RuntimeError'' ''boom''), ?items, ?hs, 4)"
    by (simp add: check_run_env_def sample_env_def sample_call_def raises_error_def)
  have b1: "handle_setup sample_env sample_headers sample_body (world ?s) =
      (Inr (IssueCommentCreatedEvent, Github (Token ''token''), ?rq), 1)"
    by (simp add: sample_defs)
  have b2: "handle_loop (Suc 0) sample_env IssueCommentCreatedEvent (Github (Token ''token'')) ?rq
      sample_headers sample_body 0 (dd_get (handlers ?s) IssueCommentCreatedEvent)
      (?s\<lparr>world := 1\<rparr>) = (OutOfFuel, ?items, ?s1)"
    by (simp add: handle_one_def sample_env_def sample_call_def state_of_def
        on_comment_def dd_get_def)
  have b3: "new_event sample_env IssueCommentCreatedEvent (Github (Token ''token'')) ?rq
      sample_headers sample_body (world ?s1) = (Inr 2, 3)"
    by (simp add: sample_env_def)
  have b4: "call sample_env (?items ! Suc 0) 2 (?items, handlers ?s1, 3) =
      (Some (Exception ''RuntimeError'' ''boom''), ?items, ?hs, 4)"
    by (simp add: sample_env_def sample_call_def raises_error_def)
  have fuel: "Suc 0 < (5::nat)" by simp
  from check_run_updated_on_Exception [OF a1 a2 a3 a4 fuel]
    check_run_updated_on_Exception [OF b1 b2 b3 b4 fuel]
  show ?thesis
    by (simp add: updates_append check_run_env_def sample_env_def)
qed

text \<open>
  The claim as stated fails: a handler that raises \<^verbatim>\<open>SystemExit\<close>, which is not an
  \<^verbatim>\<open>Exception\<close>, gets no check-run update although a check run is bound to its instance.
\<close>

theorem check_run_update_counterexample:
  "check_run check_run_env 1 1
   \<and> map (\<lambda>(h, ev, out). (qualname h, ev, out))
       (invocations (trace (snd (handle 5 check_run_env sample_headers sample_body
         (state_of [IssueCommentCreatedEvent \<mapsto> [exits]]))))) =
     [(Some ''exits'', 1, Some (BaseException ''SystemExit''))]
   \<and> updates (trace (snd (handle 5 check_run_env sample_headers sample_body
        (state_of [IssueCommentCreatedEvent \<mapsto> [exits]])))) = []
   \<and> fst (handle 5 check_run_env sample_headers sample_body
        (state_of [IssueCommentCreatedEvent \<mapsto> [exits]])) = Raises (BaseException ''SystemExit'')"
  by (simp add: sample_defs)

text \<open>
  Claim C4, as amended. When a handler raises during dispatch, \<^verbatim>\<open>handle\<close> does not
  swallow the error and does not wrap it: the call raises the very exception the handler
  raised (there is no \<^verbatim>\<open>HandlerError\<close>), after the check-run update if one is due; only
  when that update itself raises does the call raise the exception of the update instead.
\<close>

theorem handler_error_surfaces_unwrapped:
  assumes "handle_setup E headers body (world s) = (Inr (c, gh, rq), w)"
    and "handle_loop n E c gh rq headers body 0 (dd_get (handlers s) c) (s\<lparr>world := w\<rparr>) =
           (OutOfFuel, items, s1)"
    and "new_event E c gh rq headers body (world s1) = (Inr ev, w1)"
    and "call E (items ! n) ev (items, handlers s1, w1) = (Some e, items', hs', w2)"
    and "n < fuel"
  shows "fst (handle fuel E headers body s) =
           Raises (if is_Exception e \<and> check_run E ev w2
                   then (case fst (update_check_run E ev ''failure'' (format_exc E e) w2) of
                           None \<Rightarrow> e
                         | Some e' \<Rightarrow> e')
                   else e)"
  by (simp add: handle_at_raising_handler [OF assms] handle_one_raising [OF assms(3,4)]
      split: prod.splits)

theorem handler_error_surfaces_unwrapped_witness:
  "fst (handle 5 check_run_env sample_headers sample_body
      (state_of [IssueCommentCreatedEvent \<mapsto> [raises_error, on_created]])) =
     Raises (Exception ''RuntimeError'' ''boom'')"
proof -
  let ?hs = "[IssueCommentCreatedEvent \<mapsto> [raises_error, on_created]]"
  let ?items = "[raises_error, on_created]"
  let ?s = "state_of ?hs"
  let ?rq = "\<lparr>r_auth = Token ''token'', r_verify = True, r_pool_size = None\<rparr>"
  have a1: "handle_setup check_run_env sample_headers sample_body (world ?s) =
      (Inr (IssueCommentCreatedEvent, Github (Token ''token''), ?rq), 1)"
    by (simp add: sample_defs)
  have a2: "handle_loop 0 check_run_env IssueCommentCreatedEvent (Github (Token ''token'')) ?rq
      sample_headers sample_body 0 (dd_get (handlers ?s) IssueCommentCreatedEvent)
      (?s\<lparr>world := 1\<rparr>) = (OutOfFuel, ?items, ?s\<lparr>world := 1\<rparr>)"
    by (simp add: state_of_def dd_get_def)
  have a3: "new_event check_run_env IssueCommentCreatedEvent (Github (Token ''token'')) ?rq
      sample_headers sample_body (world (?s\<lparr>world := 1\<rparr>)) = (Inr 1, 2)"
    by (simp add: check_run_env_def sample_env_def)
  have a4: "call check_run_env (?items ! 0) 1 (?items, handlers (?s\<lparr>world := 1\<rparr>), 2) =
      (Some (Exception ''RuntimeError'' ''boom''), ?items, ?hs, 3)"
    by (simp add: check_run_env_def sample_env_def sample_call_def raises_error_def state_of_def)
  have fuel: "0 < (5::nat)" by simp
  from handler_error_surfaces_unwrapped [OF a1 a2 a3 a4 fuel] show ?thesis
    by (simp add: check_run_env_def sample_env_def)
qed

text \<open>
  The claim as stated fails: the exception that reaches the caller is the handler's
  \<^verbatim>\<open>RuntimeError\<close> itself; its class is not \<^verbatim>\<open>HandlerError\<close>, and nothing wraps it.
\<close>

theorem handler_error_counterexample:
  "fst (handle 5 sample_env sample_headers sample_body
      (state_of [IssueCommentCreatedEvent \<mapsto> [raises_error]])) =
     Raises (Exception ''RuntimeError'' ''boom'')
   \<and> exn_class (Exception ''RuntimeError'' ''boom'') \<noteq> ''HandlerError''"
  by (simp add: sample_defs)

end
